theory Spec2Isabelle
  imports Complex_Main
begin

section \<open>Numbers shared by the firmware and the dashboard\<close>

text \<open>
  Python floats are modelled as rationals with exact arithmetic; the values NaN and
  infinity are outside the model. \<open>py_round\<close> is Python's one-argument \<open>round\<close>: the
  nearest integer, a tie going to the even neighbour.
\<close>

definition py_round :: "rat \<Rightarrow> int" where
  "py_round x =
     (let f = \<lfloor>x\<rfloor>; d = x - of_int f
      in if d < 1 / 2 then f
         else if 1 / 2 < d then f + 1
         else if even f then f else f + 1)"

text \<open>\<open>round(x, n)\<close>: the nearest multiple of \<open>10 ^ -n\<close>, ties to even.\<close>

definition py_round_ndigits :: "rat \<Rightarrow> nat \<Rightarrow> rat" where
  "py_round_ndigits x n = of_int (py_round (x * 10 ^ n)) / 10 ^ n"

text \<open>\<open>int(x)\<close> on a float: truncation toward zero.\<close>

definition py_int :: "rat \<Rightarrow> int" where
  "py_int x = (if 0 \<le> x then \<lfloor>x\<rfloor> else \<lceil>x\<rceil>)"

section \<open>Firmware: \<open>devices/main.py\<close>\<close>

subsection \<open>Sensor conversions\<close>

definition mq135_to_pm25 :: "int \<Rightarrow> rat" where
  "mq135_to_pm25 raw = (of_int (raw - 0) / of_int (4095 - 0)) * 200"

definition calculate_aqi_pm25 :: "rat \<Rightarrow> int" where
  "calculate_aqi_pm25 pm25 =
     (if pm25 \<le> 12 then py_round ((50 / 12) * pm25)
      else if pm25 \<le> 354 / 10 then py_round (((49 / (233 / 10)) * (pm25 - 121 / 10)) + 51)
      else if pm25 \<le> 554 / 10 then py_round (((49 / (199 / 10)) * (pm25 - 355 / 10)) + 101)
      else 150)"

subsection \<open>Hourly accumulation in the main loop\<close>

text \<open>
  The module-level variables the loop updates. \<open>time()\<close> returns whole seconds.
\<close>

record accumulators =
  sum_mq135 :: int
  sum_temp :: rat
  sum_hum :: rat
  sum_aqi :: int
  sample_count :: nat
  last_hourly_upload :: int

definition HOUR_INTERVAL :: int where
  "HOUR_INTERVAL = 3600"

text \<open>
  What one pass of the loop reads: the DHT22 pair (\<open>None\<close> when \<open>measure\<close> raises
  \<open>OSError\<close>, which the loop turns into \<open>temp, hum = 0, 0\<close>) and the ADC value.
\<close>

record reading =
  dht :: "(rat \<times> rat) option"
  raw_air :: int

definition temp_of :: "reading \<Rightarrow> rat" where
  "temp_of r = (case dht r of None \<Rightarrow> 0 | Some (t, h) \<Rightarrow> t)"

definition hum_of :: "reading \<Rightarrow> rat" where
  "hum_of r = (case dht r of None \<Rightarrow> 0 | Some (t, h) \<Rightarrow> h)"

definition aqi_of :: "reading \<Rightarrow> int" where
  "aqi_of r = calculate_aqi_pm25 (mq135_to_pm25 (raw_air r))"

text \<open>Step 2 of the loop body, \<open>ACCUMULATE\<close>.\<close>

definition accumulate :: "accumulators \<Rightarrow> reading \<Rightarrow> accumulators" where
  "accumulate s r =
     s\<lparr>sum_mq135 := sum_mq135 s + raw_air r,
       sum_temp := sum_temp s + temp_of r,
       sum_hum := sum_hum s + hum_of r,
       sum_aqi := sum_aqi s + aqi_of r,
       sample_count := sample_count s + 1\<rparr>"

record payload_history =
  mq135 :: int
  temperature :: rat
  humidity :: rat
  aqi_avg :: int

text \<open>
  Step 4, \<open>HOURLY CHECK\<close>: \<open>current_time\<close> is the first \<open>time()\<close> read and \<open>reset_time\<close>
  the one stored in \<open>last_hourly_upload\<close> after the reset. The result holds the record
  handed to \<open>urequests.post(HISTORY_URL, ...)\<close>, if any; a failed post is caught and
  the reset happens all the same.
\<close>

definition hourly_check ::
  "accumulators \<Rightarrow> int \<Rightarrow> int \<Rightarrow> accumulators \<times> payload_history option" where
  "hourly_check s current_time reset_time =
     (if current_time - last_hourly_upload s \<ge> HOUR_INTERVAL then
        (s\<lparr>sum_mq135 := 0, sum_temp := 0, sum_hum := 0, sum_aqi := 0,
           sample_count := 0, last_hourly_upload := reset_time\<rparr>,
         if sample_count s > 0 then
           Some \<lparr>mq135 = py_int (of_int (sum_mq135 s) / of_nat (sample_count s)),
                 temperature = py_round_ndigits (sum_temp s / of_nat (sample_count s)) 2,
                 humidity = py_round_ndigits (sum_hum s / of_nat (sample_count s)) 2,
                 aqi_avg = py_int (of_int (sum_aqi s) / of_nat (sample_count s))\<rparr>
         else None)
      else (s, None))"

text \<open>
  One pass of \<open>while True\<close>. The body sits in \<open>try ... except Exception\<close>, so a pass
  either completes, or is cut short before the accumulation (a failed ADC read, say),
  or after it and before the hourly check.
\<close>

datatype iteration =
  Raised_before_accumulate
  | Raised_after_accumulate reading
  | Completed reading int int

fun loop_body :: "accumulators \<Rightarrow> iteration \<Rightarrow> accumulators \<times> payload_history option" where
  "loop_body s Raised_before_accumulate = (s, None)"
| "loop_body s (Raised_after_accumulate r) = (accumulate s r, None)"
| "loop_body s (Completed r current_time reset_time) =
     hourly_check (accumulate s r) current_time reset_time"

text \<open>A finite run of the loop; the result lists the hourly records in posting order.\<close>

fun main_loop :: "accumulators \<Rightarrow> iteration list \<Rightarrow> accumulators \<times> payload_history list" where
  "main_loop s [] = (s, [])"
| "main_loop s (it # its) =
     (case loop_body s it of
        (s', p) \<Rightarrow>
          (case main_loop s' its of
             (s'', ps) \<Rightarrow> (s'', (case p of None \<Rightarrow> ps | Some h \<Rightarrow> h # ps))))"

text \<open>The variables as the module initialises them, \<open>t0\<close> being \<open>time()\<close> at start.\<close>

definition initial :: "int \<Rightarrow> accumulators" where
  "initial t0 =
     \<lparr>sum_mq135 = 0, sum_temp = 0, sum_hum = 0, sum_aqi = 0,
      sample_count = 0, last_hourly_upload = t0\<rparr>"

subsection \<open>The hourly records, said in terms of the samples\<close>

text \<open>
  The record the claim describes for a window of samples: truncated means of the ADC
  value and the AQI, means rounded to two decimals of temperature and humidity.
\<close>

definition window_means :: "reading list \<Rightarrow> payload_history" where
  "window_means w =
     \<lparr>mq135 = py_int (of_int (sum_list (map raw_air w)) / of_nat (length w)),
      temperature = py_round_ndigits (sum_list (map temp_of w) / of_nat (length w)) 2,
      humidity = py_round_ndigits (sum_list (map hum_of w) / of_nat (length w)) 2,
      aqi_avg = py_int (of_int (sum_list (map aqi_of w)) / of_nat (length w))\<rparr>"

text \<open>
  The run cut into windows by the clock alone: \<open>pending\<close> are the samples taken since
  the last flush, and a flush closes the window with the sample of its own pass.
\<close>

fun flush_windows ::
  "int \<Rightarrow> reading list \<Rightarrow> iteration list \<Rightarrow> reading list list \<times> reading list" where
  "flush_windows t_last pending [] = ([], pending)"
| "flush_windows t_last pending (Raised_before_accumulate # its) =
     flush_windows t_last pending its"
| "flush_windows t_last pending (Raised_after_accumulate r # its) =
     flush_windows t_last (pending @ [r]) its"
| "flush_windows t_last pending (Completed r current_time reset_time # its) =
     (if current_time - t_last \<ge> HOUR_INTERVAL then
        (case flush_windows reset_time [] its of
           (ws, rest) \<Rightarrow> ((pending @ [r]) # ws, rest))
      else flush_windows t_last (pending @ [r]) its)"

fun samples_of :: "iteration list \<Rightarrow> reading list" where
  "samples_of [] = []"
| "samples_of (Raised_before_accumulate # its) = samples_of its"
| "samples_of (Raised_after_accumulate r # its) = r # samples_of its"
| "samples_of (Completed r current_time reset_time # its) = r # samples_of its"


text \<open>The five tallies hold the sums and the number of the samples \<open>w\<close>.\<close>

definition tallies :: "accumulators \<Rightarrow> reading list \<Rightarrow> bool" where
  "tallies s w =
     (sum_mq135 s = sum_list (map raw_air w)
      \<and> sum_temp s = sum_list (map temp_of w)
      \<and> sum_hum s = sum_list (map hum_of w)
      \<and> sum_aqi s = sum_list (map aqi_of w)
      \<and> sample_count s = length w)"

section \<open>Dashboard: \<open>show_future\<close> in \<open>app.py\<close>\<close>

subsection \<open>Rows and time\<close>

text \<open>
  A timestamp counts nanoseconds since the epoch in UTC, as pandas stores it. A row is
  what \<open>pd.to_datetime(..., errors='coerce')\<close> and \<open>pd.to_numeric(..., errors='coerce')\<close>
  leave of a stored record: \<open>None\<close> stands for \<open>NaT\<close> and \<open>NaN\<close>. The columns
  \<open>temperature\<close> and \<open>humidity\<close> are carried along by the source and never read by the
  forecast, so rows hold the timestamp column and \<open>aqi\<close> only.
\<close>

type_synonym timestamp = int

record row =
  created_at :: "timestamp option"
  aqi :: "rat option"

definition timedelta_minutes :: "int \<Rightarrow> int" where
  "timedelta_minutes m = m * 60000000000"

definition timedelta_hours :: "int \<Rightarrow> int" where
  "timedelta_hours h = h * 3600000000000"

text \<open>
  Wall-clock fields after \<open>tz_convert("Asia/Kolkata")\<close>, a fixed offset of five and a
  half hours from UTC.
\<close>

definition local_seconds :: "timestamp \<Rightarrow> int" where
  "local_seconds t = t div 1000000000 + 19800"

definition hour_of :: "timestamp \<Rightarrow> int" where
  "hour_of t = (local_seconds t div 3600) mod 24"

definition minute_of :: "timestamp \<Rightarrow> int" where
  "minute_of t = (local_seconds t div 60) mod 60"

definition digit_char :: "int \<Rightarrow> char" where
  "digit_char d = ''0123456789'' ! nat d"

definition two_digits :: "int \<Rightarrow> string" where
  "two_digits n = [digit_char (n div 10), digit_char (n mod 10)]"

text \<open>\<open>strftime("%H:%M")\<close>.\<close>

definition strftime_HM :: "timestamp \<Rightarrow> string" where
  "strftime_HM t = two_digits (hour_of t) @ '':'' @ two_digits (minute_of t)"

subsection \<open>Cleaning: sort, drop missing, drop duplicates, gap cut\<close>

text \<open>
  \<open>sort_values(t_col)\<close>: ascending by timestamp, rows without one last; rows with equal
  timestamps keep their order (an insertion sort).
\<close>

definition sort_values :: "row list \<Rightarrow> row list" where
  "sort_values df =
     sort_key (\<lambda>r. case created_at r of Some t \<Rightarrow> t | None \<Rightarrow> 0)
       [r \<leftarrow> df. created_at r \<noteq> None]
     @ [r \<leftarrow> df. created_at r = None]"

text \<open>\<open>dropna(subset=[t_col, 'aqi'])\<close>; the rows kept have both values.\<close>

fun dropna :: "row list \<Rightarrow> (timestamp \<times> rat) list" where
  "dropna [] = []"
| "dropna (r # df) =
     (case (created_at r, aqi r) of
        (Some t, Some a) \<Rightarrow> (t, a) # dropna df
      | _ \<Rightarrow> dropna df)"

text \<open>\<open>drop_duplicates(subset=[t_col])\<close> keeps the first row of each timestamp.\<close>

fun drop_duplicates :: "(timestamp \<times> rat) list \<Rightarrow> (timestamp \<times> rat) list" where
  "drop_duplicates [] = []"
| "drop_duplicates (r # df) = r # drop_duplicates [x \<leftarrow> df. fst x \<noteq> fst r]"

text \<open>\<open>df[t_col].max()\<close>, \<open>NaT\<close> on an empty column.\<close>

fun series_max :: "timestamp list \<Rightarrow> timestamp option" where
  "series_max [] = None"
| "series_max (t # ts) = Some (fold max ts t)"

text \<open>
  The gap cut: \<open>cutoff_time = df[t_col].max() - timedelta(hours=2)\<close> and
  \<open>df[df[t_col] > cutoff_time]\<close>. Every comparison with \<open>NaT\<close> is false.
\<close>

definition cutoff_time :: "(timestamp \<times> rat) list \<Rightarrow> timestamp option" where
  "cutoff_time df = map_option (\<lambda>m. m - timedelta_hours 2) (series_max (map fst df))"

definition gap_filter :: "(timestamp \<times> rat) list \<Rightarrow> (timestamp \<times> rat) list" where
  "gap_filter df =
     (case cutoff_time df of
        None \<Rightarrow> []
      | Some c \<Rightarrow> [r \<leftarrow> df. fst r > c])"

subsection \<open>Resampling to the 10-minute grid\<close>

text \<open>
  \<open>resample('10T')\<close> puts a row in the bin that starts at the last multiple of ten
  minutes at or before it, counted from local midnight; the offset of Asia/Kolkata is a
  multiple of ten minutes, so these are the multiples of ten minutes since the epoch.
\<close>

definition floor_10T :: "timestamp \<Rightarrow> timestamp" where
  "floor_10T t = (t div timedelta_minutes 10) * timedelta_minutes 10"

definition mean :: "rat list \<Rightarrow> rat" where
  "mean xs = sum_list xs / of_nat (length xs)"

text \<open>\<open>.mean(numeric_only=True)\<close> on the bins that hold rows, in ascending order.\<close>

definition resample_mean :: "(timestamp \<times> rat) list \<Rightarrow> (timestamp \<times> rat) list" where
  "resample_mean df =
     map (\<lambda>b. (b, mean [snd r. r \<leftarrow> df, floor_10T (fst r) = b]))
       (sort (remdups (map (\<lambda>r. floor_10T (fst r)) df)))"

text \<open>
  The resampled frame has a row for every bin from the first to the last, \<open>NaN\<close> in the
  empty ones, and \<open>.interpolate()\<close> puts each of them on the straight line between its
  nearest filled neighbours. The first and the last bin hold the earliest and the latest
  row, so only inner bins are empty: \<open>fill_between\<close> yields the empty bins between two
  filled ones, already interpolated.
\<close>

fun fill_between :: "timestamp \<times> rat \<Rightarrow> timestamp \<times> rat \<Rightarrow> (timestamp \<times> rat) list" where
  "fill_between (b1, v1) (b2, v2) =
     (let n = nat ((b2 - b1) div timedelta_minutes 10)
      in map (\<lambda>k. (b1 + int k * timedelta_minutes 10,
                    v1 + (v2 - v1) * of_nat k / of_nat n)) [1..<n])"

fun interpolate :: "(timestamp \<times> rat) list \<Rightarrow> (timestamp \<times> rat) list" where
  "interpolate [] = []"
| "interpolate [p] = [p]"
| "interpolate (p # q # ps) = p # fill_between p q @ interpolate (q # ps)"

text \<open>Step 3 of \<open>show_future\<close> as a whole, from the fetched rows to \<open>df_10min\<close>.\<close>

definition cleaned :: "row list \<Rightarrow> (timestamp \<times> rat) list" where
  "cleaned rows = drop_duplicates (dropna (sort_values rows))"

definition df_10min :: "row list \<Rightarrow> (timestamp \<times> rat) list" where
  "df_10min rows = interpolate (resample_mean (gap_filter (cleaned rows)))"

subsection \<open>Feature vector\<close>

record input_features =
  aqi_lag_1 :: rat
  aqi_lag_2 :: rat
  aqi_lag_3 :: rat
  aqi_lag_6 :: rat
  rolling_mean :: rat

record model_input = input_features +
  hour :: int
  minute :: int

text \<open>
  Step 4. \<open>iloc[-1]\<close> on an empty frame raises \<open>IndexError\<close> (\<open>None\<close> here); the deeper
  reads are guarded by the source's own length tests. \<open>iloc[-3:]\<close> is the last three
  rows, or all of them when there are fewer.
\<close>

definition build_features :: "(timestamp \<times> rat) list \<Rightarrow> input_features option" where
  "build_features df =
     (if df = [] then None
      else
        let n = length df;
            lag_1 = snd (df ! (n - 1));
            lag_2 = (if n > 1 then snd (df ! (n - 2)) else lag_1);
            lag_3 = (if n > 2 then snd (df ! (n - 3)) else lag_2);
            lag_6 = (if n > 5 then snd (df ! (n - 6)) else lag_3)
        in Some \<lparr>aqi_lag_1 = lag_1, aqi_lag_2 = lag_2, aqi_lag_3 = lag_3, aqi_lag_6 = lag_6,
                 rolling_mean = mean (map snd (drop (n - 3) df))\<rparr>)"

subsection \<open>Anchored forecast\<close>

text \<open>
  A model maps one input row to its prediction; the suite is the dictionary read from
  the artifact, keyed by step.
\<close>

type_synonym model = "model_input \<Rightarrow> rat"

type_synonym model_suite = "nat \<Rightarrow> model option"

datatype exn = FileNotFoundError | OtherError | KeyError nat | IndexError

record forecast_point =
  Time :: string
  Forecast_AQI :: rat

definition model_row :: "input_features \<Rightarrow> timestamp \<Rightarrow> model_input" where
  "model_row f future_time =
     \<lparr>aqi_lag_1 = aqi_lag_1 f, aqi_lag_2 = aqi_lag_2 f, aqi_lag_3 = aqi_lag_3 f,
      aqi_lag_6 = aqi_lag_6 f, rolling_mean = rolling_mean f,
      hour = hour_of future_time, minute = minute_of future_time\<rparr>"

text \<open>The body of \<open>for step in range(1, 7)\<close> after the model lookup.\<close>

definition anchored_point :: "model \<Rightarrow> input_features \<Rightarrow> timestamp \<Rightarrow> rat \<Rightarrow> nat \<Rightarrow> forecast_point" where
  "anchored_point m f last_time bias_offset step =
     (let future_time = last_time + timedelta_minutes (10 * int step);
          raw_pred = m (model_row f future_time);
          corrected_pred = raw_pred + bias_offset;
          corrected_pred = (if corrected_pred < 0 then 0 else corrected_pred)
      in \<lparr>Time = strftime_HM future_time,
          Forecast_AQI = py_round_ndigits corrected_pred 1\<rparr>)"

text \<open>The loop; a step missing from the suite raises \<open>KeyError\<close> and ends it.\<close>

fun predict_steps ::
  "model_suite \<Rightarrow> input_features \<Rightarrow> timestamp \<Rightarrow> rat \<Rightarrow> nat list \<Rightarrow> exn + forecast_point list" where
  "predict_steps model_suite f last_time bias_offset [] = Inr []"
| "predict_steps model_suite f last_time bias_offset (step # steps) =
     (case model_suite step of
        None \<Rightarrow> Inl (KeyError step)
      | Some m \<Rightarrow>
          (case predict_steps model_suite f last_time bias_offset steps of
             Inl e \<Rightarrow> Inl e
           | Inr preds \<Rightarrow> Inr (anchored_point m f last_time bias_offset step # preds)))"

definition current_aqi_real :: "(timestamp \<times> rat) list \<Rightarrow> rat" where
  "current_aqi_real df = snd (last df)"

definition raw_pred_t1 :: "model \<Rightarrow> input_features \<Rightarrow> timestamp \<Rightarrow> rat" where
  "raw_pred_t1 m f last_time = m (model_row f (last_time + timedelta_minutes 10))"

text \<open>Steps 4 and 5 on a resampled frame.\<close>

definition forecast :: "model_suite \<Rightarrow> (timestamp \<times> rat) list \<Rightarrow> exn + forecast_point list" where
  "forecast model_suite df =
     (case build_features df of
        None \<Rightarrow> Inl IndexError
      | Some f \<Rightarrow>
          (case model_suite 1 of
             None \<Rightarrow> Inl (KeyError 1)
           | Some m1 \<Rightarrow>
               (let last_time = fst (last df);
                    bias_offset = current_aqi_real df - raw_pred_t1 m1 f last_time
                in predict_steps model_suite f last_time bias_offset [1..<7])))"

subsection \<open>The entry point\<close>

text \<open>
  \<open>joblib.load\<close> either returns the suite or raises; \<open>rows\<close> is what
  \<open>get_combined_data\<close> returned, the empty list when the store is empty or the query
  failed. The outcome is what the function shows, or the exception that leaves it.
\<close>

datatype load_result = Loaded model_suite | Load_raised exn

datatype outcome =
  Error_model_not_found
  | Warning_collecting
  | Warning_cold_start int
  | Forecast_shown "forecast_point list"
  | Uncaught exn

definition show_future :: "load_result \<Rightarrow> row list \<Rightarrow> outcome" where
  "show_future load rows =
     (case load of
        Load_raised FileNotFoundError \<Rightarrow> Error_model_not_found
      | Load_raised e \<Rightarrow> Uncaught e
      | Loaded model_suite \<Rightarrow>
          if rows = [] then Warning_collecting
          else if length (df_10min rows) < 4
            then Warning_cold_start (40 - int (length (df_10min rows)) * 10)
          else (case forecast model_suite (df_10min rows) of
                  Inl e \<Rightarrow> Uncaught e
                | Inr preds \<Rightarrow> Forecast_shown preds))"

subsection \<open>Grid predicates\<close>

text \<open>Consecutive timestamps ten minutes apart.\<close>

fun spaced :: "timestamp list \<Rightarrow> bool" where
  "spaced [] = True"
| "spaced [x] = True"
| "spaced (x # y # ys) = (y = x + timedelta_minutes 10 \<and> spaced (y # ys))"

text \<open>Bins in strictly ascending order, each starting on a multiple of ten minutes.\<close>

definition on_grid :: "(timestamp \<times> rat) list \<Rightarrow> bool" where
  "on_grid ps = (sorted_wrt (<) (map fst ps) \<and> (\<forall>p\<in>set ps. timedelta_minutes 10 dvd fst p))"

subsection \<open>Sample inputs\<close>

text \<open>
  A stored record taken \<open>secs\<close> whole seconds after the epoch; 16200 is 10:00 in
  Asia/Kolkata.
\<close>

definition stored :: "int \<Rightarrow> rat \<Rightarrow> row" where
  "stored secs a = \<lparr>created_at = Some (secs * 1000000000), aqi = Some a\<rparr>"

text \<open>The readings at 10:00, 10:05, 10:10 and 10:15.\<close>

definition spec_scenario :: "row list" where
  "spec_scenario = [stored 16200 40, stored 16500 44, stored 16800 50, stored 17100 52]"

definition three_bins :: "row list" where
  "three_bins = [stored 16200 40, stored 16800 50, stored 17400 60]"

text \<open>
  Readings at 08:00, 10:06 and 12:05, a second record at 10:06 and two records that fail
  coercion, in the order the store happens to return them.
\<close>

definition gap_rows :: "row list" where
  "gap_rows =
     [stored 23700 52, \<lparr>created_at = None, aqi = Some 3\<rparr>, stored 16560 40,
      stored 9000 30, stored 16560 99, \<lparr>created_at = Some 5, aqi = None\<rparr>]"

definition unusable_rows :: "row list" where
  "unusable_rows =
     [\<lparr>created_at = None, aqi = Some 3\<rparr>, \<lparr>created_at = Some 5, aqi = None\<rparr>]"

text \<open>Four bins, the last holding seven readings of 40 and one of 41.\<close>

definition anchor_rows :: "row list" where
  "anchor_rows =
     [stored 16200 40, stored 16800 40, stored 17400 40,
      stored 18000 40, stored 18060 40, stored 18120 40, stored 18180 40,
      stored 18240 40, stored 18300 40, stored 18360 40, stored 18420 41]"

text \<open>Two suites: every step predicts the last value; step \<open>k\<close> predicts \<open>30 * k\<close> below it.\<close>

definition persistence :: model_suite where
  "persistence step = Some aqi_lag_1"

definition falling :: model_suite where
  "falling step = (if 1 \<le> step \<and> step \<le> 6 then Some (\<lambda>x. aqi_lag_1 x - 30 * of_nat step) else None)"

section \<open>Rounding lemmas\<close>

lemma py_round_lower: "of_int n \<le> x \<Longrightarrow> n \<le> py_round x"
proof -
  assume "of_int n \<le> x"
  then have "n \<le> \<lfloor>x\<rfloor>" by (simp add: le_floor_iff)
  then show ?thesis by (simp add: py_round_def Let_def)
qed

lemma py_round_upper: "x \<le> of_int n \<Longrightarrow> py_round x \<le> n"
proof (cases "x = of_int n")
  case True
  then show ?thesis by (simp add: py_round_def Let_def)
next
  case False
  assume "x \<le> of_int n"
  with False have "x < of_int n" by simp
  then have "\<lfloor>x\<rfloor> < n" by (simp add: floor_less_iff)
  then show ?thesis by (simp add: py_round_def Let_def)
qed

lemma py_round_of_int: "py_round (of_int n) = n"
  by (simp add: py_round_def Let_def)

section \<open>Firmware conversion range\<close>

lemma calculate_aqi_pm25_range:
  assumes "0 \<le> pm25"
  shows "0 \<le> calculate_aqi_pm25 pm25 \<and> calculate_aqi_pm25 pm25 \<le> 150"
proof -
  have a: "pm25 \<le> 12 \<Longrightarrow> of_int 0 \<le> (50 / 12) * pm25 \<and> (50 / 12) * pm25 \<le> of_int 150"
    using assms by simp
  have b: "12 < pm25 \<Longrightarrow> pm25 \<le> 354 / 10 \<Longrightarrow>
      of_int 0 \<le> ((49 / (233 / 10)) * (pm25 - 121 / 10)) + 51
      \<and> ((49 / (233 / 10)) * (pm25 - 121 / 10)) + 51 \<le> of_int 150"
    by (simp add: field_simps)
  have c: "354 / 10 < pm25 \<Longrightarrow> pm25 \<le> 554 / 10 \<Longrightarrow>
      of_int 0 \<le> ((49 / (199 / 10)) * (pm25 - 355 / 10)) + 101
      \<and> ((49 / (199 / 10)) * (pm25 - 355 / 10)) + 101 \<le> of_int 150"
    by (simp add: field_simps)
  show ?thesis
    unfolding calculate_aqi_pm25_def
    using a b c py_round_lower [of 0] py_round_upper [of _ 150]
    by (auto simp: not_le)
qed

lemma mq135_to_pm25_nonneg: "0 \<le> raw \<Longrightarrow> 0 \<le> mq135_to_pm25 raw"
  by (simp add: mq135_to_pm25_def)

text \<open>
  C9. For every raw ADC reading in \<open>[0, 4095]\<close> the composed conversion
  \<open>calculate_aqi_pm25 (mq135_to_pm25 raw)\<close> is an integer AQI in \<open>[0, 150]\<close>, and every
  PM2.5 estimate above 55.4 is mapped to exactly 150: the device never reports an AQI
  in the bands above 150.
\<close>

theorem firmware_aqi_range:
  "(0 \<le> raw \<and> raw \<le> 4095 \<longrightarrow>
      0 \<le> calculate_aqi_pm25 (mq135_to_pm25 raw)
      \<and> calculate_aqi_pm25 (mq135_to_pm25 raw) \<le> 150)
   \<and> (554 / 10 < pm25 \<longrightarrow> calculate_aqi_pm25 pm25 = 150)"
proof -
  have "554 / 10 < pm25 \<Longrightarrow> calculate_aqi_pm25 pm25 = 150"
    by (simp add: calculate_aqi_pm25_def)
  then show ?thesis
    using calculate_aqi_pm25_range [OF mq135_to_pm25_nonneg, of raw] by blast
qed

theorem firmware_aqi_range_witness:
  "(0::int) \<le> 2048 \<and> (2048::int) \<le> 4095
   \<and> 0 \<le> calculate_aqi_pm25 (mq135_to_pm25 2048)
   \<and> calculate_aqi_pm25 (mq135_to_pm25 2048) \<le> 150
   \<and> (554 / 10 :: rat) < 100 \<and> calculate_aqi_pm25 100 = 150"
  using firmware_aqi_range [of 2048 100] by simp

section \<open>Firmware hourly flush\<close>

lemma tallies_accumulate: "tallies s w \<Longrightarrow> tallies (accumulate s r) (w @ [r])"
  by (simp add: tallies_def accumulate_def)

lemma accumulate_last: "last_hourly_upload (accumulate s r) = last_hourly_upload s"
  by (simp add: accumulate_def)

lemma hourly_check_idle:
  "\<not> HOUR_INTERVAL \<le> now - last_hourly_upload s \<Longrightarrow> hourly_check s now rst = (s, None)"
  by (simp add: hourly_check_def)

lemma hourly_check_fires:
  assumes "HOUR_INTERVAL \<le> now - last_hourly_upload s" and "tallies s w" and "w \<noteq> []"
  shows "hourly_check s now rst = (initial rst, Some (window_means w))"
  using assms by (simp add: hourly_check_def tallies_def window_means_def initial_def)

lemma tallies_initial: "tallies (initial t) []"
  by (simp add: tallies_def initial_def)

lemma last_initial: "last_hourly_upload (initial t) = t"
  by (simp add: initial_def)

text \<open>
  The loop against the windows, from any state whose tallies hold the pending samples:
  induction on the passes, one case per way a pass can end.
\<close>

lemma main_loop_windows:
  "tallies s pending \<Longrightarrow> main_loop s its = (s', ps) \<Longrightarrow>
   flush_windows (last_hourly_upload s) pending its = (ws, rest) \<Longrightarrow>
   ps = map window_means ws \<and> tallies s' rest
   \<and> concat ws @ rest = pending @ samples_of its \<and> [] \<notin> set ws"
proof (induction its arbitrary: s pending s' ps ws rest)
  case Nil
  then show ?case by simp
next
  case (Cons it its)
  show ?case
  proof (cases it)
    case Raised_before_accumulate
    have m: "main_loop s its = (s', ps)"
      using Cons.prems(2) Raised_before_accumulate by (simp split: prod.splits)
    have f: "flush_windows (last_hourly_upload s) pending its = (ws, rest)"
      using Cons.prems(3) Raised_before_accumulate by simp
    show ?thesis
      using Cons.IH [OF Cons.prems(1) m f] Raised_before_accumulate by simp
  next
    case (Raised_after_accumulate r)
    have t: "tallies (accumulate s r) (pending @ [r])"
      using Cons.prems(1) by (rule tallies_accumulate)
    have m: "main_loop (accumulate s r) its = (s', ps)"
      using Cons.prems(2) Raised_after_accumulate by (simp split: prod.splits)
    have f: "flush_windows (last_hourly_upload (accumulate s r)) (pending @ [r]) its = (ws, rest)"
      using Cons.prems(3) Raised_after_accumulate by (simp add: accumulate_last)
    show ?thesis
      using Cons.IH [OF t m f] Raised_after_accumulate by simp
  next
    case (Completed r now rst)
    have t: "tallies (accumulate s r) (pending @ [r])"
      using Cons.prems(1) by (rule tallies_accumulate)
    show ?thesis
    proof (cases "HOUR_INTERVAL \<le> now - last_hourly_upload s")
      case True
      have h: "hourly_check (accumulate s r) now rst
               = (initial rst, Some (window_means (pending @ [r])))"
        using True t by (intro hourly_check_fires) (simp_all add: accumulate_last)
      obtain ps' where m: "main_loop (initial rst) its = (s', ps')"
        and ps: "ps = window_means (pending @ [r]) # ps'"
        using Cons.prems(2) Completed h by (simp split: prod.splits)
      obtain ws' where f: "flush_windows (last_hourly_upload (initial rst)) [] its = (ws', rest)"
        and ws: "ws = (pending @ [r]) # ws'"
        using Cons.prems(3) Completed True by (simp add: last_initial split: prod.splits)
      show ?thesis
        using Cons.IH [OF tallies_initial m f] ps ws Completed by simp
    next
      case False
      have h: "hourly_check (accumulate s r) now rst = (accumulate s r, None)"
        using False by (intro hourly_check_idle) (simp add: accumulate_last)
      have m: "main_loop (accumulate s r) its = (s', ps)"
        using Cons.prems(2) Completed h by (simp split: prod.splits)
      have f: "flush_windows (last_hourly_upload (accumulate s r)) (pending @ [r]) its = (ws, rest)"
        using Cons.prems(3) Completed False by (simp add: accumulate_last)
      show ?thesis
        using Cons.IH [OF t m f] Completed by simp
    qed
  qed
qed

text \<open>
  C10. Run the loop from the module's initial state over any passes. The hourly records
  it posts are, in order, the means (truncated for mq135 and aqi, rounded to two
  decimals for temperature and humidity) of the windows of samples taken since the
  previous flush; no window is empty; the windows followed by the samples still pending
  are exactly the samples taken, each once, so no sample is in two records; the tallies
  at the end hold the pending samples only; and a pass whose hourly check fires leaves
  all four sums and the count at zero.
\<close>

theorem hourly_flush_means:
  assumes "main_loop (initial t0) its = (s, ps)"
    and "flush_windows t0 [] its = (ws, rest)"
  shows "ps = map window_means ws
         \<and> [] \<notin> set ws
         \<and> concat ws @ rest = samples_of its
         \<and> tallies s rest
         \<and> (HOUR_INTERVAL \<le> now - last_hourly_upload s0 \<longrightarrow>
              fst (loop_body s0 (Completed r now rst)) = initial rst)"
proof -
  have "tallies (initial t0) []" by (rule tallies_initial)
  moreover have "flush_windows (last_hourly_upload (initial t0)) [] its = (ws, rest)"
    using assms(2) by (simp add: last_initial)
  ultimately have "ps = map window_means ws \<and> tallies s rest
      \<and> concat ws @ rest = [] @ samples_of its \<and> [] \<notin> set ws"
    using assms(1) by (intro main_loop_windows)
  moreover have "HOUR_INTERVAL \<le> now - last_hourly_upload s0 \<Longrightarrow>
      fst (loop_body s0 (Completed r now rst)) = initial rst"
    by (simp add: hourly_check_def accumulate_def initial_def)
  ultimately show ?thesis by simp
qed

theorem hourly_flush_means_witness:
  "main_loop (initial 0)
     [Completed \<lparr>dht = Some (251 / 10, 40), raw_air = 100\<rparr> 2 2,
      Raised_after_accumulate \<lparr>dht = None, raw_air = 301\<rparr>,
      Raised_before_accumulate,
      Completed \<lparr>dht = Some (25, 41), raw_air = 2000\<rparr> 3600 3601,
      Completed \<lparr>dht = Some (251 / 10, 40), raw_air = 100\<rparr> 3603 3603]
   = (\<lparr>sum_mq135 = 100, sum_temp = 251 / 10, sum_hum = 40, sum_aqi = 20,
        sample_count = 1, last_hourly_upload = 3601\<rparr>,
      [\<lparr>mq135 = 800, temperature = 167 / 10, humidity = 27, aqi_avg = 75\<rparr>])
   \<and> [\<lparr>mq135 = 800, temperature = 167 / 10, humidity = 27, aqi_avg = 75\<rparr>]
     = map window_means
         [[\<lparr>dht = Some (251 / 10, 40), raw_air = 100\<rparr>, \<lparr>dht = None, raw_air = 301\<rparr>,
           \<lparr>dht = Some (25, 41), raw_air = 2000\<rparr>]]
   \<and> HOUR_INTERVAL \<le> 3600 - last_hourly_upload (initial 0)
   \<and> fst (loop_body (initial 0) (Completed \<lparr>dht = None, raw_air = 7\<rparr> 3600 3601))
     = initial 3601"
proof -
  let ?a = "\<lparr>dht = Some (251 / 10, 40), raw_air = 100\<rparr>"
  let ?b = "\<lparr>dht = None, raw_air = 301\<rparr>"
  let ?c = "\<lparr>dht = Some (25, 41), raw_air = 2000\<rparr>"
  let ?its = "[Completed ?a 2 2, Raised_after_accumulate ?b, Raised_before_accumulate,
               Completed ?c 3600 3601, Completed ?a 3603 3603]"
  have m: "main_loop (initial 0) ?its
      = (\<lparr>sum_mq135 = 100, sum_temp = 251 / 10, sum_hum = 40, sum_aqi = 20,
           sample_count = 1, last_hourly_upload = 3601\<rparr>,
         [\<lparr>mq135 = 800, temperature = 167 / 10, humidity = 27, aqi_avg = 75\<rparr>])"
    by code_simp
  have f: "flush_windows 0 [] ?its = ([[?a, ?b, ?c]], [?a])"
    by code_simp
  have h: "HOUR_INTERVAL \<le> 3600 - last_hourly_upload (initial 0)"
    by (simp add: HOUR_INTERVAL_def initial_def)
  show ?thesis
    using hourly_flush_means [OF m f, of 3600 "initial 0" "\<lparr>dht = None, raw_air = 7\<rparr>" 3601] m h
    by simp
qed

section \<open>The 10-minute grid\<close>

lemma ten_pos: "0 < timedelta_minutes 10"
  by (simp add: timedelta_minutes_def)

lemma spaced_Cons: "g \<noteq> [] \<Longrightarrow> spaced (x # g) = (hd g = x + timedelta_minutes 10 \<and> spaced g)"
  by (cases g) auto

lemma spaced_nth: "spaced g \<Longrightarrow> Suc i < length g \<Longrightarrow> g ! Suc i = g ! i + timedelta_minutes 10"
proof (induction g arbitrary: i rule: spaced.induct)
  case (3 x y ys)
  then show ?case by (cases i) auto
qed auto

lemma spaced_ge_hd: "spaced g \<Longrightarrow> x \<in> set g \<Longrightarrow> hd g \<le> x"
proof (induction g arbitrary: x rule: spaced.induct)
  case (3 a b bs)
  show ?case
  proof (cases "x = a")
    case True then show ?thesis by simp
  next
    case False
    with 3 have "hd (b # bs) \<le> x" by auto
    with 3(2) ten_pos show ?thesis by auto
  qed
qed auto

lemma spaced_sorted: "spaced g \<Longrightarrow> sorted_wrt (<) g"
proof (induction g rule: spaced.induct)
  case (3 a b bs)
  have "\<forall>z\<in>set (b # bs). a < z"
  proof
    fix z assume "z \<in> set (b # bs)"
    with 3(2) have "hd (b # bs) \<le> z" by (intro spaced_ge_hd) auto
    with 3(2) ten_pos show "a < z" by auto
  qed
  with 3 show ?case by auto
qed auto

lemma spaced_progression:
  "j < n \<Longrightarrow> spaced g \<Longrightarrow> g \<noteq> [] \<Longrightarrow> hd g = b + int n * timedelta_minutes 10 \<Longrightarrow>
   spaced (map (\<lambda>k. b + int k * timedelta_minutes 10) [j..<n] @ g)"
proof (induction "n - j" arbitrary: j)
  case 0
  then show ?case by simp
next
  case (Suc d)
  have u: "[j..<n] = j # [Suc j..<n]" using Suc.prems(1) by (simp add: upt_rec)
  show ?case
  proof (cases "Suc j = n")
    case True
    then have "[Suc j..<n] = []" by simp
    have "int n = int j + 1" using True by auto
    with u Suc.prems \<open>[Suc j..<n] = []\<close> show ?thesis
      by (simp add: spaced_Cons algebra_simps)
  next
    case False
    with Suc.prems(1) have lt: "Suc j < n" by simp
    have d: "d = n - Suc j" using Suc.hyps(2) by simp
    have ih: "spaced (map (\<lambda>k. b + int k * timedelta_minutes 10) [Suc j..<n] @ g)"
      using Suc.hyps(1) [OF d lt Suc.prems(2,3,4)] .
    have v: "[Suc j..<n] = Suc j # [Suc (Suc j)..<n]" using lt by (simp add: upt_rec)
    have ne: "map (\<lambda>k. b + int k * timedelta_minutes 10) [Suc j..<n] @ g \<noteq> []"
      using Suc.prems(3) by simp
    have h: "hd (map (\<lambda>k. b + int k * timedelta_minutes 10) [Suc j..<n] @ g)
             = b + int (Suc j) * timedelta_minutes 10"
      by (subst v) simp
    show ?thesis
      by (subst u) (simp only: list.map append_Cons spaced_Cons [OF ne] h ih, simp add: algebra_simps)
  qed
qed

lemma fst_fill_between:
  "map fst (fill_between p q)
   = map (\<lambda>k. fst p + int k * timedelta_minutes 10)
       [1..<nat ((fst q - fst p) div timedelta_minutes 10)]"
  by (cases p; cases q) (simp add: Let_def comp_def)

lemma hd_interpolate: "ps \<noteq> [] \<Longrightarrow> hd (interpolate ps) = hd ps"
  by (induction ps rule: interpolate.induct) auto

lemma interpolate_Nil: "(interpolate ps = []) = (ps = [])"
  by (induction ps rule: interpolate.induct) auto

lemma last_interpolate: "ps \<noteq> [] \<Longrightarrow> last (interpolate ps) = last ps"
  by (induction ps rule: interpolate.induct) (auto simp: interpolate_Nil)

lemma spaced_interpolate: "on_grid ps \<Longrightarrow> spaced (map fst (interpolate ps))"
proof (induction ps rule: interpolate.induct)
  case (3 p q ps)
  let ?T = "timedelta_minutes 10"
  let ?n = "nat ((fst q - fst p) div ?T)"
  let ?g = "map fst (interpolate (q # ps))"
  from 3(2) have og: "on_grid (q # ps)" by (simp add: on_grid_def)
  from 3(2) have lt: "fst p < fst q" and dp: "?T dvd fst p" and dq: "?T dvd fst q"
    by (simp_all add: on_grid_def)
  from dq dp have "?T dvd (fst q - fst p)" by (rule dvd_diff)
  then have m: "(fst q - fst p) div ?T * ?T = fst q - fst p"
    and le: "?T \<le> fst q - fst p"
    using lt by (simp_all add: zdvd_imp_le)
  have "0 < (fst q - fst p) div ?T"
    using le ten_pos by (simp add: pos_imp_zdiv_pos_iff)
  then have n: "0 < ?n" and nn: "int ?n = (fst q - fst p) div ?T" by simp_all
  have g: "spaced ?g" using 3(1) og by simp
  have gne: "?g \<noteq> []" by (simp add: interpolate_Nil)
  have hg: "hd ?g = fst p + int ?n * ?T"
    using hd_interpolate [of "q # ps"] gne m nn by (simp add: hd_map interpolate_Nil)
  have "spaced (map (\<lambda>k. fst p + int k * ?T) [0..<?n] @ ?g)"
    using n g gne hg by (rule spaced_progression)
  moreover have "[0..<?n] = 0 # [1..<?n]" using n by (simp add: upt_rec)
  ultimately have "spaced (fst p # map (\<lambda>k. fst p + int k * ?T) [1..<?n] @ ?g)"
    by simp
  moreover have "map fst (interpolate (p # q # ps))
      = fst p # map (\<lambda>k. fst p + int k * ?T) [1..<?n] @ ?g"
    unfolding interpolate.simps list.map map_append fst_fill_between ..
  ultimately show ?case by (simp only:)
qed (auto)

lemma floor_10T_le: "floor_10T t \<le> t"
proof -
  have "t = floor_10T t + t mod timedelta_minutes 10"
    by (simp add: floor_10T_def)
  moreover have "0 \<le> t mod timedelta_minutes 10"
    using ten_pos by simp
  ultimately show ?thesis by linarith
qed

lemma floor_10T_gt: "t - timedelta_minutes 10 < floor_10T t"
proof -
  have "t = floor_10T t + t mod timedelta_minutes 10"
    by (simp add: floor_10T_def)
  moreover have "t mod timedelta_minutes 10 < timedelta_minutes 10"
    using ten_pos by simp
  ultimately show ?thesis by linarith
qed

lemma floor_10T_dvd: "timedelta_minutes 10 dvd floor_10T t"
  by (simp add: floor_10T_def)

lemma fst_resample_mean:
  "map fst (resample_mean df) = sort (remdups (map (\<lambda>r. floor_10T (fst r)) df))"
  by (simp add: resample_mean_def comp_def)

lemma set_fst_resample_mean:
  "fst ` set (resample_mean df) = (\<lambda>r. floor_10T (fst r)) ` set df"
proof -
  have "fst ` set (resample_mean df) = set (map fst (resample_mean df))" by simp
  also have "\<dots> = (\<lambda>r. floor_10T (fst r)) ` set df"
    unfolding fst_resample_mean by simp
  finally show ?thesis .
qed

lemma on_grid_resample_mean: "on_grid (resample_mean df)"
proof -
  have "sorted_wrt (<) (map fst (resample_mean df))"
    unfolding fst_resample_mean by (simp add: strict_sorted_iff)
  moreover have "timedelta_minutes 10 dvd fst p" if "p \<in> set (resample_mean df)" for p
  proof -
    from that have "fst p \<in> fst ` set (resample_mean df)" by (rule imageI)
    then show ?thesis unfolding set_fst_resample_mean by (auto simp: floor_10T_dvd)
  qed
  ultimately show ?thesis by (simp add: on_grid_def)
qed

lemma spaced_df_10min: "spaced (map fst (df_10min rows))"
  unfolding df_10min_def by (rule spaced_interpolate) (rule on_grid_resample_mean)

lemma set_drop_duplicates: "set (drop_duplicates df) \<subseteq> set df"
  by (induction df rule: drop_duplicates.induct) auto

lemma distinct_drop_duplicates: "distinct (map fst (drop_duplicates df))"
proof (induction df rule: drop_duplicates.induct)
  case (2 r df)
  have "fst r \<notin> fst ` set (drop_duplicates [x \<leftarrow> df. fst x \<noteq> fst r])"
    using set_drop_duplicates [of "[x \<leftarrow> df. fst x \<noteq> fst r]"] by auto
  with 2 show ?case by simp
qed simp

text \<open>
  C5. For every batch of rows, the timestamps of the conditioned series step by exactly
  ten minutes from one point to the next, so they are strictly increasing and without
  duplicates; and the cleaned rows that enter resampling have no duplicate timestamp.
\<close>

theorem conditioned_series_grid:
  "(\<forall>i. Suc i < length (df_10min rows) \<longrightarrow>
       fst (df_10min rows ! Suc i) = fst (df_10min rows ! i) + timedelta_minutes 10)
   \<and> sorted_wrt (<) (map fst (df_10min rows))
   \<and> distinct (map fst (df_10min rows))
   \<and> distinct (map fst (cleaned rows))"
proof -
  let ?g = "map fst (df_10min rows)"
  have s: "spaced ?g" by (rule spaced_df_10min)
  have "fst (df_10min rows ! Suc i) = fst (df_10min rows ! i) + timedelta_minutes 10"
    if "Suc i < length (df_10min rows)" for i
    using spaced_nth [OF s, of i] that by simp
  moreover have st: "sorted_wrt (<) ?g" using s by (rule spaced_sorted)
  moreover have "distinct ?g" using st by (simp add: strict_sorted_iff)
  moreover have "distinct (map fst (cleaned rows))"
    unfolding cleaned_def by (rule distinct_drop_duplicates)
  ultimately show ?thesis by blast
qed

theorem conditioned_series_grid_witness:
  "Suc 0 < length (df_10min gap_rows)
   \<and> fst (df_10min gap_rows ! Suc 0) = fst (df_10min gap_rows ! 0) + timedelta_minutes 10
   \<and> sorted_wrt (<) (map fst (df_10min gap_rows))
   \<and> distinct (map fst (df_10min gap_rows))
   \<and> distinct (map fst (cleaned gap_rows))"
proof -
  have l: "Suc 0 < length (df_10min gap_rows)" by code_simp
  from conditioned_series_grid [of gap_rows] l show ?thesis by blast
qed

section \<open>The gap cut\<close>

lemma series_max_Max:
  assumes "series_max ts = Some m"
  shows "m = Max (set ts)"
proof (cases ts)
  case Nil
  with assms show ?thesis by simp
next
  case (Cons t ts')
  with assms have "m = fold max ts' t" by simp
  also have "\<dots> = Max (set (t # ts'))" by (rule Max.set_eq_fold [symmetric])
  finally show ?thesis using Cons by simp
qed

lemma gap_filter_Some:
  "cutoff_time df = Some c \<Longrightarrow> gap_filter df = [r \<leftarrow> df. c < fst r]"
  by (simp add: gap_filter_def)

lemma sorted_wrt_le_last: "sorted_wrt (<) g \<Longrightarrow> (x::int) \<in> set g \<Longrightarrow> x \<le> last g"
  by (induction g) (auto simp: less_imp_le)

lemma grid_bounds:
  assumes "ps \<noteq> []" and "on_grid ps" and "x \<in> set (map fst (interpolate ps))"
  shows "fst (hd ps) \<le> x \<and> x \<le> fst (last ps)"
proof -
  let ?g = "map fst (interpolate ps)"
  have s: "spaced ?g" using assms(2) by (rule spaced_interpolate)
  have ne: "interpolate ps \<noteq> []" using assms(1) by (simp add: interpolate_Nil)
  have "hd ?g = fst (hd ps)" using ne hd_interpolate [OF assms(1)] by (simp add: hd_map)
  moreover have "last ?g = fst (last ps)"
    using ne last_interpolate [OF assms(1)] by (simp add: last_map)
  moreover have "hd ?g \<le> x" using s assms(3) by (rule spaced_ge_hd)
  moreover have "x \<le> last ?g" using spaced_sorted [OF s] assms(3) by (rule sorted_wrt_le_last)
  ultimately show ?thesis by simp
qed

text \<open>
  C3 (amended). When the cleaned rows are not empty the cutoff is their latest timestamp
  minus two hours, the rows kept are exactly those later than the cutoff, and every
  point of the conditioned series lies later than the cutoff minus ten minutes and not
  later than the latest row: a bin is labelled by its start, which may precede the
  cutoff by less than ten minutes.
\<close>

theorem gap_cut_bounds:
  assumes "cutoff_time (cleaned rows) = Some c"
  shows "c = Max (set (map fst (cleaned rows))) - timedelta_hours 2
         \<and> gap_filter (cleaned rows) = [r \<leftarrow> cleaned rows. c < fst r]
         \<and> (\<forall>p\<in>set (df_10min rows).
               c - timedelta_minutes 10 < fst p
               \<and> fst p \<le> Max (set (map fst (cleaned rows))))"
proof -
  let ?df = "cleaned rows"
  let ?kept = "gap_filter ?df"
  let ?bins = "resample_mean ?kept"
  obtain m where m: "series_max (map fst ?df) = Some m" and c: "c = m - timedelta_hours 2"
    using assms by (auto simp: cutoff_time_def)
  have mx: "m = Max (set (map fst ?df))" using m by (rule series_max_Max)
  have kept: "?kept = [r \<leftarrow> ?df. c < fst r]" using assms by (rule gap_filter_Some)
  have bin: "c - timedelta_minutes 10 < fst b \<and> fst b \<le> m" if "b \<in> set ?bins" for b
  proof -
    from that have "fst b \<in> fst ` set ?bins" by (rule imageI)
    then obtain r where r: "r \<in> set ?kept" and b: "fst b = floor_10T (fst r)"
      unfolding set_fst_resample_mean by auto
    from r kept have "c < fst r" and "r \<in> set ?df" by auto
    then have "fst r \<le> m" unfolding mx by (intro Max_ge) auto
    with \<open>c < fst r\<close> b floor_10T_le [of "fst r"] floor_10T_gt [of "fst r"]
    show ?thesis by linarith
  qed
  have "c - timedelta_minutes 10 < fst p \<and> fst p \<le> m" if "p \<in> set (df_10min rows)" for p
  proof -
    from that have ne: "?bins \<noteq> []"
      by (auto simp: df_10min_def)
    from that have "fst p \<in> set (map fst (interpolate ?bins))"
      by (simp add: df_10min_def)
    with ne on_grid_resample_mean
    have "fst (hd ?bins) \<le> fst p \<and> fst p \<le> fst (last ?bins)" by (rule grid_bounds)
    moreover have "hd ?bins \<in> set ?bins" "last ?bins \<in> set ?bins" using ne by simp_all
    ultimately show ?thesis using bin [of "hd ?bins"] bin [of "last ?bins"] by linarith
  qed
  then show ?thesis using c mx kept by blast
qed

theorem gap_cut_bounds_witness:
  "cutoff_time (cleaned gap_rows) = Some 16500000000000
   \<and> (16500000000000 :: int) = Max (set (map fst (cleaned gap_rows))) - timedelta_hours 2
   \<and> gap_filter (cleaned gap_rows) = [r \<leftarrow> cleaned gap_rows. 16500000000000 < fst r]
   \<and> list_all (\<lambda>p. 16500000000000 - timedelta_minutes 10 < fst p
                    \<and> fst p \<le> Max (set (map fst (cleaned gap_rows))))
         (df_10min gap_rows)"
proof -
  have c: "cutoff_time (cleaned gap_rows) = Some 16500000000000" by code_simp
  from gap_cut_bounds [OF c] c show ?thesis
    unfolding list_all_iff by simp
qed

theorem gap_cut_counterexample:
  "series_max (map fst (cleaned gap_rows)) = Some 23700000000000
   \<and> fst (last (cleaned gap_rows)) - fst (hd (cleaned gap_rows)) > timedelta_hours 2
   \<and> hd (df_10min gap_rows) = (16200000000000, 40)
   \<and> (16200000000000 :: int) < 23700000000000 - timedelta_hours 2"
  by code_simp

section \<open>The anchored forecast\<close>

lemma py_round_ndigits_nonneg: "0 \<le> x \<Longrightarrow> 0 \<le> py_round_ndigits x n"
proof -
  assume "0 \<le> x"
  then have "of_int 0 \<le> x * 10 ^ n" by simp
  then have "0 \<le> py_round (x * 10 ^ n)" by (rule py_round_lower)
  then show ?thesis by (simp add: py_round_ndigits_def)
qed

lemma py_round_ndigits_tenth: "py_round_ndigits (of_int k / 10) 1 = of_int k / 10"
  by (simp add: py_round_ndigits_def py_round_of_int)

lemma digit_char_digit: "0 \<le> d \<Longrightarrow> d \<le> 9 \<Longrightarrow> digit_char d \<in> set ''0123456789''"
  unfolding digit_char_def by (rule nth_mem) simp

lemma two_digits_digits:
  assumes "0 \<le> n" and "n < 100"
  shows "set (two_digits n) \<subseteq> set ''0123456789''"
proof -
  have "0 \<le> n div 10" "n div 10 \<le> 9" "0 \<le> n mod 10" "n mod 10 \<le> 9"
    using assms by simp_all
  then show ?thesis
    unfolding two_digits_def using digit_char_digit by simp
qed

lemma hour_of_range: "0 \<le> hour_of t \<and> hour_of t < 24"
  by (simp add: hour_of_def)

lemma minute_of_range: "0 \<le> minute_of t \<and> minute_of t < 60"
  by (simp add: minute_of_def)

lemma strftime_HM_shape:
  "length (strftime_HM t) = 5 \<and> strftime_HM t ! 2 = CHR '':''
   \<and> set (take 2 (strftime_HM t)) \<subseteq> set ''0123456789''
   \<and> set (drop 3 (strftime_HM t)) \<subseteq> set ''0123456789''"
proof -
  have h: "set (two_digits (hour_of t)) \<subseteq> set ''0123456789''"
    using hour_of_range [of t] by (intro two_digits_digits) simp_all
  have m: "set (two_digits (minute_of t)) \<subseteq> set ''0123456789''"
    using minute_of_range [of t] by (intro two_digits_digits) simp_all
  have l: "length (two_digits n) = 2" for n by (simp add: two_digits_def)
  have "take 2 (strftime_HM t) = two_digits (hour_of t)"
    by (simp add: strftime_HM_def l)
  moreover have "drop 3 (strftime_HM t) = two_digits (minute_of t)"
    by (simp add: strftime_HM_def l)
  moreover have "strftime_HM t ! 2 = CHR '':''"
    by (simp add: strftime_HM_def nth_append l)
  moreover have "length (strftime_HM t) = 5"
    by (simp add: strftime_HM_def l)
  ultimately show ?thesis using h m by simp
qed

lemma anchored_point_nonneg: "0 \<le> Forecast_AQI (anchored_point m f t b step)"
  by (simp add: anchored_point_def Let_def py_round_ndigits_nonneg)

lemma predict_steps_nonneg:
  "predict_steps ms f t b steps = Inr preds \<Longrightarrow> \<forall>p\<in>set preds. 0 \<le> Forecast_AQI p"
proof (induction steps arbitrary: preds)
  case Nil
  then show ?case by simp
next
  case (Cons step steps)
  then show ?case
    by (auto split: option.splits sum.splits simp: anchored_point_nonneg)
qed

lemma predict_steps_map:
  "\<forall>s\<in>set steps. ms s = Some (g s) \<Longrightarrow>
   predict_steps ms f t b steps = Inr (map (\<lambda>s. anchored_point (g s) f t b s) steps)"
  by (induction steps) auto

lemma predict_steps_Inr:
  "predict_steps ms f t b steps = Inr preds \<Longrightarrow>
   length preds = length steps \<and> (\<forall>s\<in>set steps. ms s \<noteq> None)"
proof (induction steps arbitrary: preds)
  case Nil
  then show ?case by simp
next
  case (Cons step steps)
  then show ?case
    by (auto split: option.splits sum.splits)
qed

lemma show_future_shown:
  assumes "show_future load rows = Forecast_shown preds"
  shows "\<exists>ms. load = Loaded ms \<and> rows \<noteq> [] \<and> 4 \<le> length (df_10min rows)
              \<and> forecast ms (df_10min rows) = Inr preds"
proof (cases load)
  case (Loaded ms)
  with assms show ?thesis
    by (auto simp: show_future_def split: if_splits sum.splits)
next
  case (Load_raised e)
  with assms show ?thesis
    by (cases e) (simp_all add: show_future_def)
qed

lemma forecast_Inr:
  assumes "forecast ms df = Inr preds"
  shows "\<exists>f m1. build_features df = Some f \<and> ms 1 = Some m1
     \<and> predict_steps ms f (fst (last df))
          (current_aqi_real df - raw_pred_t1 m1 f (fst (last df))) [1..<7] = Inr preds"
  using assms by (auto simp: forecast_def Let_def split: option.splits)

lemma df_10min_Nil: "df_10min [] = []"
  by (simp add: df_10min_def cleaned_def sort_values_def gap_filter_def cutoff_time_def
      resample_mean_def)

text \<open>
  C2. Whenever \<open>show_future\<close> shows a forecast, for any rows and any suite of models, it
  has six points and each \<open>Forecast AQI\<close> is at least 0.
\<close>

theorem forecast_nonneg:
  assumes "show_future load rows = Forecast_shown preds"
  shows "length preds = 6 \<and> (\<forall>p\<in>set preds. 0 \<le> Forecast_AQI p)"
proof -
  from assms obtain ms where "forecast ms (df_10min rows) = Inr preds"
    using show_future_shown by blast
  then obtain f b where p: "predict_steps ms f (fst (last (df_10min rows))) b [1..<7] = Inr preds"
    using forecast_Inr by blast
  from predict_steps_Inr [OF p] predict_steps_nonneg [OF p] show ?thesis by simp
qed

theorem forecast_nonneg_witness:
  "show_future (Loaded falling) gap_rows
     = Forecast_shown
         [\<lparr>Time = ''12:10'', Forecast_AQI = 52\<rparr>, \<lparr>Time = ''12:20'', Forecast_AQI = 22\<rparr>,
          \<lparr>Time = ''12:30'', Forecast_AQI = 0\<rparr>, \<lparr>Time = ''12:40'', Forecast_AQI = 0\<rparr>,
          \<lparr>Time = ''12:50'', Forecast_AQI = 0\<rparr>, \<lparr>Time = ''13:00'', Forecast_AQI = 0\<rparr>]
   \<and> list_all (\<lambda>p. 0 \<le> Forecast_AQI p)
         [\<lparr>Time = ''12:10'', Forecast_AQI = 52\<rparr>, \<lparr>Time = ''12:20'', Forecast_AQI = 22\<rparr>,
          \<lparr>Time = ''12:30'', Forecast_AQI = 0\<rparr>, \<lparr>Time = ''12:40'', Forecast_AQI = 0\<rparr>,
          \<lparr>Time = ''12:50'', Forecast_AQI = 0\<rparr>, \<lparr>Time = ''13:00'', Forecast_AQI = 0\<rparr>]"
proof -
  have e: "show_future (Loaded falling) gap_rows
     = Forecast_shown
         [\<lparr>Time = ''12:10'', Forecast_AQI = 52\<rparr>, \<lparr>Time = ''12:20'', Forecast_AQI = 22\<rparr>,
          \<lparr>Time = ''12:30'', Forecast_AQI = 0\<rparr>, \<lparr>Time = ''12:40'', Forecast_AQI = 0\<rparr>,
          \<lparr>Time = ''12:50'', Forecast_AQI = 0\<rparr>, \<lparr>Time = ''13:00'', Forecast_AQI = 0\<rparr>]"
    by code_simp
  from forecast_nonneg [OF e] e show ?thesis
    unfolding list_all_iff by blast
qed

text \<open>
  C8. With at least four resampled points and a model for each of the steps 1 to 6,
  \<open>show_future\<close> shows exactly six points in step order; the point of step \<open>k\<close> is the
  anchored prediction of model \<open>k\<close>, its time is \<open>last_time\<close> plus \<open>10 * k\<close> minutes
  written as five characters \<open>HH:MM\<close>, and its \<open>Forecast AQI\<close> is a whole number of
  tenths.
\<close>

theorem six_forecast_points:
  assumes "4 \<le> length (df_10min rows)"
    and "\<forall>k\<in>{1..6}. model_suite k = Some (g k)"
  shows "\<exists>preds f.
           show_future (Loaded model_suite) rows = Forecast_shown preds
           \<and> length preds = 6
           \<and> build_features (df_10min rows) = Some f
           \<and> (\<forall>k\<in>{1..6}.
                 preds ! (k - 1)
                   = anchored_point (g k) f (fst (last (df_10min rows)))
                       (current_aqi_real (df_10min rows)
                          - raw_pred_t1 (g 1) f (fst (last (df_10min rows)))) k
                 \<and> Time (preds ! (k - 1))
                     = strftime_HM (fst (last (df_10min rows)) + timedelta_minutes (10 * int k))
                 \<and> length (Time (preds ! (k - 1))) = 5
                 \<and> Time (preds ! (k - 1)) ! 2 = CHR '':''
                 \<and> (\<exists>n. Forecast_AQI (preds ! (k - 1)) = of_int n / 10))"
proof -
  let ?df = "df_10min rows"
  let ?t = "fst (last ?df)"
  have ne: "rows \<noteq> []" using assms(1) df_10min_Nil by auto
  have dne: "?df \<noteq> []" using assms(1) by auto
  then obtain f where f: "build_features ?df = Some f"
    by (simp add: build_features_def Let_def)
  let ?b = "current_aqi_real ?df - raw_pred_t1 (g 1) f ?t"
  let ?preds = "map (\<lambda>s. anchored_point (g s) f ?t ?b s) [1..<7]"
  have m1: "model_suite 1 = Some (g 1)" using assms(2) by simp
  have "\<forall>s\<in>set [1..<7]. model_suite s = Some (g s)" using assms(2) by simp
  then have p: "predict_steps model_suite f ?t ?b [1..<7] = Inr ?preds"
    by (rule predict_steps_map)
  have fc: "forecast model_suite ?df = Inr ?preds"
    using f m1 p by (simp add: forecast_def Let_def)
  have sf: "show_future (Loaded model_suite) rows = Forecast_shown ?preds"
    using ne assms(1) fc by (simp add: show_future_def)
  have pt: "?preds ! (k - 1) = anchored_point (g k) f ?t ?b k" if "k \<in> {1..6}" for k
  proof -
    from that have "k - 1 < length [1..<7]" and "[1..<7] ! (k - 1) = k" by auto
    then show ?thesis by (simp only: nth_map)
  qed
  have tm: "Time (anchored_point m f ?t ?b k) = strftime_HM (?t + timedelta_minutes (10 * int k))"
    for m k by (simp add: anchored_point_def Let_def)
  have fa: "\<exists>n. Forecast_AQI (anchored_point m f ?t ?b k) = of_int n / 10" for m k
    by (simp add: anchored_point_def Let_def py_round_ndigits_def)
  have "length ?preds = 6" by simp
  with sf f pt tm fa strftime_HM_shape show ?thesis
    by (intro exI [of _ ?preds] exI [of _ f]) (simp del: upt_Suc)
qed

theorem six_forecast_points_witness:
  "4 \<le> length (df_10min gap_rows)
   \<and> (\<exists>preds. show_future (Loaded falling) gap_rows = Forecast_shown preds
         \<and> length preds = 6
         \<and> (\<forall>k\<in>{1..6}. Time (preds ! (k - 1))
               = strftime_HM (fst (last (df_10min gap_rows)) + timedelta_minutes (10 * int k))))"
proof -
  have l: "4 \<le> length (df_10min gap_rows)" by code_simp
  have m: "\<forall>k\<in>{1..6}. falling k = Some (\<lambda>x. aqi_lag_1 x - 30 * of_nat k)"
    by (simp add: falling_def)
  from six_forecast_points [OF l m] l show ?thesis by blast
qed

text \<open>
  C1 (amended). When a forecast is shown and the step-1 model's raw prediction equals
  the last observed AQI, the first point's \<open>Forecast AQI\<close> is that AQI clamped at 0 and
  rounded to one decimal; it reproduces the observed AQI exactly when that is
  non-negative and has at most one decimal.
\<close>

theorem anchored_first_point:
  assumes "show_future (Loaded model_suite) rows = Forecast_shown preds"
    and "model_suite 1 = Some m1"
    and "build_features (df_10min rows) = Some f"
    and "raw_pred_t1 m1 f (fst (last (df_10min rows))) = current_aqi_real (df_10min rows)"
  shows "Forecast_AQI (hd preds)
           = py_round_ndigits (max 0 (current_aqi_real (df_10min rows))) 1
         \<and> (0 \<le> current_aqi_real (df_10min rows)
              \<and> current_aqi_real (df_10min rows) = of_int n / 10 \<longrightarrow>
              Forecast_AQI (hd preds) = current_aqi_real (df_10min rows))"
proof -
  let ?df = "df_10min rows"
  let ?t = "fst (last ?df)"
  let ?c = "current_aqi_real ?df"
  from assms(1) have "forecast model_suite ?df = Inr preds"
    using show_future_shown by blast
  with assms(2,3) have p: "predict_steps model_suite f ?t (?c - raw_pred_t1 m1 f ?t) [1..<7] = Inr preds"
    using forecast_Inr by fastforce
  have u: "[1..<7] = 1 # [2..<7]" by (simp add: upt_rec)
  from p assms(2,4) obtain rest where "preds = anchored_point m1 f ?t 0 1 # rest"
    unfolding u by (auto split: sum.splits)
  then have "Forecast_AQI (hd preds) = Forecast_AQI (anchored_point m1 f ?t 0 1)" by simp
  also have "\<dots> = py_round_ndigits (max 0 (raw_pred_t1 m1 f ?t)) 1"
    by (simp add: anchored_point_def raw_pred_t1_def Let_def max_def)
  finally have a: "Forecast_AQI (hd preds) = py_round_ndigits (max 0 ?c) 1"
    using assms(4) by simp
  have "Forecast_AQI (hd preds) = ?c" if "0 \<le> ?c" and "?c = of_int n / 10"
  proof -
    from that(1) have "max 0 ?c = ?c" by simp
    with a have "Forecast_AQI (hd preds) = py_round_ndigits ?c 1" by simp
    also have "\<dots> = py_round_ndigits (of_int n / 10) 1" by (simp only: that(2) [symmetric])
    also have "\<dots> = of_int n / 10" by (rule py_round_ndigits_tenth)
    finally show ?thesis using that(2) by simp
  qed
  with a show ?thesis by blast
qed

theorem anchored_first_point_witness:
  "show_future (Loaded persistence) gap_rows
     = Forecast_shown
         [\<lparr>Time = ''12:10'', Forecast_AQI = 52\<rparr>, \<lparr>Time = ''12:20'', Forecast_AQI = 52\<rparr>,
          \<lparr>Time = ''12:30'', Forecast_AQI = 52\<rparr>, \<lparr>Time = ''12:40'', Forecast_AQI = 52\<rparr>,
          \<lparr>Time = ''12:50'', Forecast_AQI = 52\<rparr>, \<lparr>Time = ''13:00'', Forecast_AQI = 52\<rparr>]
   \<and> persistence 1 = Some aqi_lag_1
   \<and> build_features (df_10min gap_rows)
       = Some \<lparr>aqi_lag_1 = 52, aqi_lag_2 = 51, aqi_lag_3 = 50, aqi_lag_6 = 47, rolling_mean = 51\<rparr>
   \<and> raw_pred_t1 aqi_lag_1
         \<lparr>aqi_lag_1 = 52, aqi_lag_2 = 51, aqi_lag_3 = 50, aqi_lag_6 = 47, rolling_mean = 51\<rparr>
         (fst (last (df_10min gap_rows)))
       = current_aqi_real (df_10min gap_rows)
   \<and> current_aqi_real (df_10min gap_rows) = of_int 520 / 10
   \<and> Forecast_AQI (hd [\<lparr>Time = ''12:10'', Forecast_AQI = 52\<rparr>, \<lparr>Time = ''12:20'', Forecast_AQI = 52\<rparr>,
          \<lparr>Time = ''12:30'', Forecast_AQI = 52\<rparr>, \<lparr>Time = ''12:40'', Forecast_AQI = 52\<rparr>,
          \<lparr>Time = ''12:50'', Forecast_AQI = 52\<rparr>, \<lparr>Time = ''13:00'', Forecast_AQI = 52\<rparr>])
       = current_aqi_real (df_10min gap_rows)"
proof -
  let ?f = "\<lparr>aqi_lag_1 = 52, aqi_lag_2 = 51, aqi_lag_3 = 50, aqi_lag_6 = 47, rolling_mean = 51\<rparr>"
  have s: "show_future (Loaded persistence) gap_rows
     = Forecast_shown
         [\<lparr>Time = ''12:10'', Forecast_AQI = 52\<rparr>, \<lparr>Time = ''12:20'', Forecast_AQI = 52\<rparr>,
          \<lparr>Time = ''12:30'', Forecast_AQI = 52\<rparr>, \<lparr>Time = ''12:40'', Forecast_AQI = 52\<rparr>,
          \<lparr>Time = ''12:50'', Forecast_AQI = 52\<rparr>, \<lparr>Time = ''13:00'', Forecast_AQI = 52\<rparr>]"
    by code_simp
  have m: "persistence 1 = Some aqi_lag_1" by (simp add: persistence_def)
  have f: "build_features (df_10min gap_rows) = Some ?f" by code_simp
  have c: "current_aqi_real (df_10min gap_rows) = 52" by code_simp
  have r: "raw_pred_t1 aqi_lag_1 ?f (fst (last (df_10min gap_rows)))
           = current_aqi_real (df_10min gap_rows)"
    unfolding c by (simp add: raw_pred_t1_def model_row_def)
  have n: "current_aqi_real (df_10min gap_rows) = of_int 520 / 10" unfolding c by simp
  have p: "0 \<le> current_aqi_real (df_10min gap_rows)" unfolding c by simp
  from anchored_first_point [OF s m f r, of 520] n p s m f r show ?thesis by simp
qed

theorem anchored_first_point_counterexample:
  "build_features (df_10min anchor_rows)
     = Some \<lparr>aqi_lag_1 = 321 / 8, aqi_lag_2 = 40, aqi_lag_3 = 40, aqi_lag_6 = 40,
             rolling_mean = 961 / 24\<rparr>
   \<and> persistence 1 = Some aqi_lag_1
   \<and> raw_pred_t1 aqi_lag_1
         \<lparr>aqi_lag_1 = 321 / 8, aqi_lag_2 = 40, aqi_lag_3 = 40, aqi_lag_6 = 40,
          rolling_mean = 961 / 24\<rparr>
         (fst (last (df_10min anchor_rows)))
       = current_aqi_real (df_10min anchor_rows)
   \<and> show_future (Loaded persistence) anchor_rows
       = Forecast_shown
           [\<lparr>Time = ''10:40'', Forecast_AQI = 401 / 10\<rparr>, \<lparr>Time = ''10:50'', Forecast_AQI = 401 / 10\<rparr>,
            \<lparr>Time = ''11:00'', Forecast_AQI = 401 / 10\<rparr>, \<lparr>Time = ''11:10'', Forecast_AQI = 401 / 10\<rparr>,
            \<lparr>Time = ''11:20'', Forecast_AQI = 401 / 10\<rparr>, \<lparr>Time = ''11:30'', Forecast_AQI = 401 / 10\<rparr>]
   \<and> current_aqi_real (df_10min anchor_rows) = 321 / 8
   \<and> (401 / 10 :: rat) \<noteq> 321 / 8"
proof -
  have f: "build_features (df_10min anchor_rows)
     = Some \<lparr>aqi_lag_1 = 321 / 8, aqi_lag_2 = 40, aqi_lag_3 = 40, aqi_lag_6 = 40,
             rolling_mean = 961 / 24\<rparr>"
    by code_simp
  have c: "current_aqi_real (df_10min anchor_rows) = 321 / 8" by code_simp
  have s: "show_future (Loaded persistence) anchor_rows
       = Forecast_shown
           [\<lparr>Time = ''10:40'', Forecast_AQI = 401 / 10\<rparr>, \<lparr>Time = ''10:50'', Forecast_AQI = 401 / 10\<rparr>,
            \<lparr>Time = ''11:00'', Forecast_AQI = 401 / 10\<rparr>, \<lparr>Time = ''11:10'', Forecast_AQI = 401 / 10\<rparr>,
            \<lparr>Time = ''11:20'', Forecast_AQI = 401 / 10\<rparr>, \<lparr>Time = ''11:30'', Forecast_AQI = 401 / 10\<rparr>]"
    by code_simp
  show ?thesis
    unfolding f s c by (simp add: raw_pred_t1_def model_row_def persistence_def)
qed

section \<open>Cold start and failures\<close>

text \<open>
  C4. When the suite is loaded, the store returned rows and the resampled frame has
  fewer than four points, \<open>show_future\<close> reports the cold start with a wait of
  \<open>(4 - points) * 10\<close> minutes and shows no forecast; with exactly three points the wait
  is 10 minutes.
\<close>

theorem cold_start_wait:
  assumes "rows \<noteq> []" and "length (df_10min rows) < 4"
  shows "show_future (Loaded model_suite) rows
           = Warning_cold_start ((4 - int (length (df_10min rows))) * 10)
         \<and> (length (df_10min rows) = 3 \<longrightarrow>
              show_future (Loaded model_suite) rows = Warning_cold_start 10)"
  using assms by (simp add: show_future_def algebra_simps)

theorem cold_start_wait_witness:
  "three_bins \<noteq> [] \<and> length (df_10min three_bins) = 3
   \<and> show_future (Loaded persistence) three_bins = Warning_cold_start 10"
proof -
  have n: "three_bins \<noteq> []" by (simp add: three_bins_def)
  have l: "length (df_10min three_bins) = 3" by code_simp
  then have "length (df_10min three_bins) < 4" by simp
  from cold_start_wait [OF n this, of persistence] l n show ?thesis by simp
qed

lemma set_sort_values: "set (sort_values df) = set df"
  by (auto simp: sort_values_def)

lemma dropna_Nil: "\<forall>r\<in>set df. created_at r = None \<or> aqi r = None \<Longrightarrow> dropna df = []"
  by (induction df) (auto split: option.splits)

lemma df_10min_unusable:
  assumes "\<forall>r\<in>set rows. created_at r = None \<or> aqi r = None"
  shows "df_10min rows = []"
proof -
  have "dropna (sort_values rows) = []"
    using assms by (intro dropna_Nil) (simp add: set_sort_values)
  then show ?thesis
    by (simp add: df_10min_def cleaned_def gap_filter_def cutoff_time_def resample_mean_def)
qed

text \<open>
  C7 (amended). A missing artifact file yields the model-not-found error, an empty
  store the collecting warning, rows that all fail coercion the cold-start warning with
  a wait of 40 minutes; and a forecast is shown only when the suite was loaded and holds
  a model for every step 1 to 6, and then with all six points.
\<close>

theorem failures_at_entry_point:
  "show_future (Load_raised FileNotFoundError) rows = Error_model_not_found
   \<and> show_future (Loaded model_suite) [] = Warning_collecting
   \<and> (rows \<noteq> [] \<and> (\<forall>r\<in>set rows. created_at r = None \<or> aqi r = None) \<longrightarrow>
        show_future (Loaded model_suite) rows = Warning_cold_start 40)
   \<and> (show_future load rows = Forecast_shown preds \<longrightarrow>
        (\<exists>ms. load = Loaded ms \<and> (\<forall>k\<in>{1..6}. ms k \<noteq> None) \<and> length preds = 6))"
proof -
  have a: "show_future (Load_raised FileNotFoundError) rows = Error_model_not_found"
    by (simp add: show_future_def)
  have b: "show_future (Loaded model_suite) [] = Warning_collecting"
    by (simp add: show_future_def)
  have c: "show_future (Loaded model_suite) rows = Warning_cold_start 40"
    if "rows \<noteq> []" and "\<forall>r\<in>set rows. created_at r = None \<or> aqi r = None"
    using that(1) df_10min_unusable [OF that(2)] by (simp add: show_future_def)
  have d: "\<exists>ms. load = Loaded ms \<and> (\<forall>k\<in>{1..6}. ms k \<noteq> None) \<and> length preds = 6"
    if "show_future load rows = Forecast_shown preds"
  proof -
    from that obtain ms where l: "load = Loaded ms"
      and "forecast ms (df_10min rows) = Inr preds"
      using show_future_shown by blast
    then obtain f b where p: "predict_steps ms f (fst (last (df_10min rows))) b [1..<7] = Inr preds"
      using forecast_Inr by blast
    from predict_steps_Inr [OF p] l show ?thesis by simp
  qed
  from a b c d show ?thesis by blast
qed

theorem failures_at_entry_point_witness:
  "show_future (Load_raised FileNotFoundError) gap_rows = Error_model_not_found
   \<and> unusable_rows \<noteq> []
   \<and> list_all (\<lambda>r. created_at r = None \<or> aqi r = None) unusable_rows
   \<and> show_future (Loaded falling) unusable_rows = Warning_cold_start 40"
proof -
  have n: "unusable_rows \<noteq> []" by (simp add: unusable_rows_def)
  have u: "\<forall>r\<in>set unusable_rows. created_at r = None \<or> aqi r = None"
    by (simp add: unusable_rows_def)
  from failures_at_entry_point [of unusable_rows falling] n u
  have "show_future (Loaded falling) unusable_rows = Warning_cold_start 40" by blast
  moreover from failures_at_entry_point [of gap_rows]
  have "show_future (Load_raised FileNotFoundError) gap_rows = Error_model_not_found" by blast
  ultimately show ?thesis using n u unfolding list_all_iff by blast
qed

theorem corrupt_artifact_counterexample:
  "show_future (Load_raised OtherError) gap_rows = Uncaught OtherError"
  by (simp add: show_future_def)

section \<open>The two-bin scenario\<close>

text \<open>
  C6 (amended). The four readings at 10:00, 10:05, 10:10 and 10:15 with AQI 40, 44, 50
  and 52 resample to two bins, 42 at 10:00 and 51 at 10:10. On a frame of two points the
  feature expressions give \<open>aqi_lag_1\<close> the last value and \<open>aqi_lag_2\<close> the one before
  it, \<open>aqi_lag_3\<close> and \<open>aqi_lag_6\<close> fall back to \<open>aqi_lag_2\<close>, and \<open>rolling_mean\<close> is the
  mean of the two: here 51, 42, 42, 42 and 46.5.
\<close>

theorem two_bin_features:
  "df_10min spec_scenario = [(16200000000000, 42), (16800000000000, 51)]
   \<and> build_features (df_10min spec_scenario)
       = Some \<lparr>aqi_lag_1 = 51, aqi_lag_2 = 42, aqi_lag_3 = 42, aqi_lag_6 = 42,
               rolling_mean = 93 / 2\<rparr>
   \<and> build_features [(t1, v1), (t2, v2)]
       = Some \<lparr>aqi_lag_1 = v2, aqi_lag_2 = v1, aqi_lag_3 = v1, aqi_lag_6 = v1,
               rolling_mean = (v1 + v2) / 2\<rparr>"
proof -
  have a: "df_10min spec_scenario = [(16200000000000, 42), (16800000000000, 51)]"
    by code_simp
  have b: "build_features [(t1, v1), (t2, v2)]
       = Some \<lparr>aqi_lag_1 = v2, aqi_lag_2 = v1, aqi_lag_3 = v1, aqi_lag_6 = v1,
               rolling_mean = (v1 + v2) / 2\<rparr>" for t1 t2 :: timestamp and v1 v2
    by (simp add: build_features_def mean_def)
  have "build_features (df_10min spec_scenario)
       = Some \<lparr>aqi_lag_1 = 51, aqi_lag_2 = 42, aqi_lag_3 = 42, aqi_lag_6 = 42,
               rolling_mean = 93 / 2\<rparr>"
    unfolding a b by simp
  with a b show ?thesis by blast
qed

theorem two_bin_lag_2_counterexample:
  "df_10min spec_scenario = [(16200000000000, 42), (16800000000000, 51)]
   \<and> map_option aqi_lag_2 (build_features (df_10min spec_scenario)) = Some 42
   \<and> map_option aqi_lag_2 (build_features (df_10min spec_scenario)) \<noteq> Some 51"
proof -
  have a: "df_10min spec_scenario = [(16200000000000, 42), (16800000000000, 51)]"
    by code_simp
  show ?thesis unfolding a by (simp add: build_features_def)
qed

end
